theory Spec2Isabelle
  imports Complex_Main
begin

section \<open>JavaScript values used by the extension\<close>

text \<open>
  A JavaScript string is a sequence of code units; it is modelled as a \<open>string\<close>, one
  \<open>char\<close> per code unit (code units 0 to 255). Every string operation of the sources
  (\<open>split\<close>, \<open>indexOf\<close>, \<open>substring\<close>, \<open>startsWith\<close>, \<open>+=\<close>) is positional and
  treats code units alike, apart from the separators written below.

  A thrown exception is the left summand of a sum type, a returned value the right one.
\<close>

datatype js_exn = TypeError | RangeError

text \<open>Sequencing: a thrown exception ends the function, a value goes on.\<close>

fun and_then :: "js_exn + 'a \<Rightarrow> ('a \<Rightarrow> js_exn + 'b) \<Rightarrow> js_exn + 'b" where
  "and_then (Inl e) f = Inl e"
| "and_then (Inr v) f = f v"

text \<open>
  A Number is NaN, an infinity or a finite value; finite values are kept as rationals.
  The sign of zero is not modelled.
\<close>

datatype js_number = NaN | PosInf | NegInf | Fin rat

subsection \<open>String primitives\<close>

text \<open>\<open>s.split(sep)\<close> with a one-unit separator: never an empty array.\<close>

fun split :: "char \<Rightarrow> string \<Rightarrow> string list" where
  "split sep [] = [] # []"
| "split sep (c # cs) =
     (if c = sep then [] # split sep cs
      else (case split sep cs of [] \<Rightarrow> [c] # [] | l # ls \<Rightarrow> (c # l) # ls))"

text \<open>\<open>s.indexOf(c)\<close>: the first position of the unit, or -1.\<close>

fun indexOf :: "string \<Rightarrow> char \<Rightarrow> int" where
  "indexOf [] c = -1"
| "indexOf (x # xs) c =
     (if x = c then 0 else (let i = indexOf xs c in if i < 0 then -1 else i + 1))"

text \<open>
  \<open>s.substring(start, end)\<close>: both arguments are clamped to \<open>[0, length]\<close> and swapped
  when the first exceeds the second. \<open>s.substring(start)\<close> runs to the end.
\<close>

definition clamp_index :: "string \<Rightarrow> int \<Rightarrow> nat" where
  "clamp_index s i = (if i < 0 then 0 else min (nat i) (length s))"

definition substring :: "string \<Rightarrow> int \<Rightarrow> int \<Rightarrow> string" where
  "substring s start end =
     (let a = clamp_index s start; b = clamp_index s end;
          from = min a b; to = max a b
      in take (to - from) (drop from s))"

definition substring_from :: "string \<Rightarrow> int \<Rightarrow> string" where
  "substring_from s start = drop (clamp_index s start) s"

text \<open>\<open>s.startsWith(p)\<close>.\<close>

definition startsWith :: "string \<Rightarrow> string \<Rightarrow> bool" where
  "startsWith s p = (take (length p) s = p)"

text \<open>
  \<open>xs[i]\<close> followed by a method call: an index beyond the array reads \<open>undefined\<close>, and
  the method call on it throws a TypeError.
\<close>

definition line_at :: "string list \<Rightarrow> nat \<Rightarrow> js_exn + string" where
  "line_at xs i = (if i < length xs then Inr (xs ! i) else Inl TypeError)"

subsection \<open>\<open>Number.parseInt(s, 10)\<close>\<close>

text \<open>
  Leading white space and line terminators are skipped, one sign is read, then the
  longest run of decimal digits; no digit gives NaN. The value is then converted to a
  Number (\<open>to_number\<close>, below): the nearest double, an infinity on overflow. (The
  language lets an implementation replace the digits after the twentieth significant one
  by zeros; the model converts the exact value.)
\<close>

definition is_white_space :: "char \<Rightarrow> bool" where
  "is_white_space c =
     (c = CHR 0x09 \<or> c = CHR 0x0A \<or> c = CHR 0x0B \<or> c = CHR 0x0C \<or> c = CHR 0x0D
      \<or> c = CHR 0x20 \<or> c = CHR 0xA0)"

definition is_digit :: "char \<Rightarrow> bool" where
  "is_digit c = (48 \<le> (of_char c :: nat) \<and> (of_char c :: nat) \<le> 57)"

definition digit_value :: "char \<Rightarrow> int" where
  "digit_value c = int (of_char c) - 48"

definition digits_value :: "string \<Rightarrow> int" where
  "digits_value z = foldl (\<lambda>acc c. 10 * acc + digit_value c) 0 z"

subsection \<open>Numbers: rounding to a double\<close>

text \<open>
  \<open>to_number x\<close> is the Number nearest to the rational \<open>x\<close>: 53 significant bits,
  ties to the even significand, exponents from -1022 (below it the spacing stays that of
  the subnormal numbers), an infinity from \<open>2 ^ 1024\<close> on.
\<close>

function bit_length :: "int \<Rightarrow> nat" where
  "bit_length n = (if n \<le> 0 then 0 else Suc (bit_length (n div 2)))"
  by pat_completeness auto
termination
  by (relation "measure nat") auto

definition floor_log2 :: "rat \<Rightarrow> int" where
  "floor_log2 x =
     (let (p, q) = quotient_of x;
          e0 = int (bit_length p) - int (bit_length q)
      in if 2 powi e0 \<le> x then e0 else e0 - 1)"

definition round_half_even :: "rat \<Rightarrow> int" where
  "round_half_even y =
     (let f = \<lfloor>y\<rfloor>; r = y - of_int f
      in if r < 1 / 2 then f
         else if 1 / 2 < r then f + 1
         else if even f then f else f + 1)"

definition to_number :: "rat \<Rightarrow> js_number" where
  "to_number x =
     (if x = 0 then Fin 0
      else let a = \<bar>x\<bar>;
               e = max (floor_log2 a) (- 1022);
               q = 2 powi (e - 52);
               r = of_int (round_half_even (a / q)) * q
           in if 2 powi 1024 \<le> r then (if 0 < x then PosInf else NegInf)
              else Fin (if 0 < x then r else - r))"

subsection \<open>Number operations\<close>

text \<open>\<open>a - b\<close>, \<open>a / b\<close>, \<open>Math.abs\<close>, \<open>a < b\<close> and \<open>Math.round\<close> on Numbers.\<close>

fun js_sub :: "js_number \<Rightarrow> js_number \<Rightarrow> js_number" where
  "js_sub NaN b = NaN"
| "js_sub a NaN = NaN"
| "js_sub PosInf PosInf = NaN"
| "js_sub NegInf NegInf = NaN"
| "js_sub PosInf b = PosInf"
| "js_sub NegInf b = NegInf"
| "js_sub (Fin x) PosInf = NegInf"
| "js_sub (Fin x) NegInf = PosInf"
| "js_sub (Fin x) (Fin y) = to_number (x - y)"

fun js_div :: "js_number \<Rightarrow> js_number \<Rightarrow> js_number" where
  "js_div NaN b = NaN"
| "js_div a NaN = NaN"
| "js_div PosInf (Fin y) = (if 0 \<le> y then PosInf else NegInf)"
| "js_div NegInf (Fin y) = (if 0 \<le> y then NegInf else PosInf)"
| "js_div PosInf b = NaN"
| "js_div NegInf b = NaN"
| "js_div (Fin x) PosInf = Fin 0"
| "js_div (Fin x) NegInf = Fin 0"
| "js_div (Fin x) (Fin y) =
     (if y = 0 then (if x = 0 then NaN else if 0 < x then PosInf else NegInf)
      else to_number (x / y))"

fun js_abs :: "js_number \<Rightarrow> js_number" where
  "js_abs NaN = NaN"
| "js_abs PosInf = PosInf"
| "js_abs NegInf = PosInf"
| "js_abs (Fin x) = Fin \<bar>x\<bar>"

fun js_less :: "js_number \<Rightarrow> js_number \<Rightarrow> bool" where
  "js_less NaN b = False"
| "js_less a NaN = False"
| "js_less PosInf b = False"
| "js_less NegInf NegInf = False"
| "js_less NegInf b = True"
| "js_less (Fin x) PosInf = True"
| "js_less (Fin x) NegInf = False"
| "js_less (Fin x) (Fin y) = (x < y)"

text \<open>
  \<open>Math.round\<close>: the nearest integer, the larger one when two are equally near.
\<close>

fun Math_round :: "js_number \<Rightarrow> js_number" where
  "Math_round (Fin x) = Fin (of_int \<lfloor>x + 1 / 2\<rfloor>)"
| "Math_round a = a"

definition parseInt :: "string \<Rightarrow> js_number" where
  "parseInt s =
     (let t = dropWhile is_white_space s;
          negative = (case t of [] \<Rightarrow> False | c # _ \<Rightarrow> c = CHR ''-'');
          u = (case t of [] \<Rightarrow> []
               | c # cs \<Rightarrow> if c = CHR ''+'' \<or> c = CHR ''-'' then cs else t);
          z = takeWhile is_digit u
      in if z = [] then NaN
         else to_number (of_int (if negative then - digits_value z else digits_value z)))"

section \<open>The blame parser (extension.ts)\<close>

record BlameCommitter =
  name :: string
  email :: string
  time :: js_number

record BlameStruct =
  author :: BlameCommitter
  committer :: BlameCommitter
  summary :: string
  sha :: string

text \<open>The union \<open>BlameStruct | Error\<close>; an \<open>Error\<close> value carries its message.\<close>

datatype blame_result = Blame BlameStruct | Error string

definition ZERO_SHA :: string where
  "ZERO_SHA = ''0000000000000000000000000000000000000000''"

text \<open>\<open>lines[i].substring(lines[i].indexOf(" ") + 1)\<close>\<close>

definition field_at :: "string list \<Rightarrow> nat \<Rightarrow> js_exn + string" where
  "field_at lines i =
     and_then (line_at lines i) (\<lambda>l. Inr (substring_from l (indexOf l CHR '' '' + 1)))"

text \<open>\<open>lines[0].substring(0, lines[0].indexOf(" "))\<close>\<close>

definition revisionId :: "string list \<Rightarrow> js_exn + string" where
  "revisionId lines =
     and_then (line_at lines 0) (\<lambda>l. Inr (substring l 0 (indexOf l CHR '' '')))"

definition parseBlame :: "string \<Rightarrow> js_exn + blame_result" where
  "parseBlame blameString =
     (let lines = split CHR 0x0A blameString in
      and_then (revisionId lines) (\<lambda>sha_v.
      if sha_v = ZERO_SHA then Inr (Error ''Change not committed yet'')
      else
      and_then (field_at lines 1) (\<lambda>author_name.
      and_then (field_at lines 2) (\<lambda>author_email.
      and_then (field_at lines 3) (\<lambda>author_time.
      and_then (field_at lines 5) (\<lambda>committer_name.
      and_then (field_at lines 6) (\<lambda>committer_email.
      and_then (field_at lines 7) (\<lambda>committer_time.
      and_then (field_at lines 9) (\<lambda>summary_v.
      Inr (Blame
        \<lparr>author = \<lparr>name = author_name, email = author_email,
                    time = parseInt author_time\<rparr>,
         committer = \<lparr>name = committer_name, email = committer_email,
                       time = parseInt committer_time\<rparr>,
         summary = summary_v,
         sha = sha_v\<rparr>))))))))))"

section \<open>The process runner (run-command.ts)\<close>

text \<open>
  The promise of \<open>runCommand\<close> is created with a \<open>resolve\<close> function only, so it is
  pending or resolved; a second \<open>resolve\<close> of a resolved promise does nothing.
  The resolved value is \<open>string | undefined\<close>, here \<open>string option\<close>.
\<close>

datatype 'a promise = Pending | Resolved 'a

text \<open>The working directory \<open>dirname(path)\<close> is kept symbolic.\<close>

datatype dir = Dirname string

text \<open>
  One call of \<open>runCommand\<close>: what was given to \<open>spawn\<close>, the signal sent by
  \<open>process.kill\<close> (if any), the \<open>buffer\<close> of the closure and its promise.
\<close>

record command_process =
  command :: string
  args :: "string list"
  cwd :: dir
  signal :: "string option"
  buffer :: string
  promise :: "string option promise"

definition runCommand :: "string \<Rightarrow> string list \<Rightarrow> dir \<Rightarrow> command_process" where
  "runCommand cmd arguments opts =
     \<lparr>command = cmd, args = arguments, cwd = opts, signal = None,
      buffer = [], promise = Pending\<rparr>"

text \<open>
  The listeners. A \<open>data\<close> event of standard output appends its chunk (as text) to the
  buffer, one of standard error is dropped, and \<open>close\<close> resolves the promise.
\<close>

datatype stream_event = Stdout string | Stderr string

fun on_data :: "stream_event \<Rightarrow> command_process \<Rightarrow> command_process" where
  "on_data (Stdout chunk) p = p\<lparr>buffer := buffer p @ chunk\<rparr>"
| "on_data (Stderr chunk) p = p"

definition resolve :: "'a \<Rightarrow> 'a promise \<Rightarrow> 'a promise" where
  "resolve v pr = (case pr of Pending \<Rightarrow> Resolved v | Resolved u \<Rightarrow> Resolved u)"

definition on_close :: "command_process \<Rightarrow> command_process" where
  "on_close p =
     (if length (buffer p) > 0
      then p\<lparr>promise := resolve (Some (buffer p)) (promise p)\<rparr>
      else p\<lparr>promise := resolve None (promise p)\<rparr>)"

text \<open>A whole run: the data events in their order of arrival, then \<open>close\<close>.\<close>

definition run_to_close :: "stream_event list \<Rightarrow> command_process \<Rightarrow> command_process" where
  "run_to_close evs p = on_close (fold on_data evs p)"

text \<open>The chunks of standard output among the events, in order.\<close>

fun stdout_chunks :: "stream_event list \<Rightarrow> string list" where
  "stdout_chunks [] = []"
| "stdout_chunks (Stdout chunk # evs) = chunk # stdout_chunks evs"
| "stdout_chunks (Stderr chunk # evs) = stdout_chunks evs"

section \<open>The blame lookup (extension.ts)\<close>

text \<open>
  What \<open>getBlame\<close> reads of the editor: \<open>editor.document.uri.path\<close> and
  \<open>editor.selection.active.line\<close>.
\<close>

record editor =
  path :: string
  line :: nat

text \<open>
  The state that lookups share: the processes spawned so far (a process is named by its
  position) and the module variable \<open>activeBlame\<close>.
\<close>

record world =
  processes :: "command_process list"
  activeBlame :: "nat option"

text \<open>The template literal \<open>`${line+1},+1`\<close> needs the decimal digits of a number.\<close>

fun decimal :: "nat \<Rightarrow> string" where
  "decimal n =
     (if n < 10 then [char_of (48 + n)]
      else decimal (n div 10) @ [char_of (48 + n mod 10)])"

definition kill :: "nat \<Rightarrow> string \<Rightarrow> world \<Rightarrow> world" where
  "kill pid sig w =
     (if pid < length (processes w)
      then w\<lparr>processes := (processes w)[pid := (processes w ! pid)\<lparr>signal := Some sig\<rparr>]\<rparr>
      else w)"

text \<open>
  \<open>getBlame\<close> is an async function: it runs up to its \<open>await\<close> without interruption
  (\<open>getBlame_start\<close>) and goes on when the awaited promise is resolved
  (\<open>getBlame_resume\<close>). The first part either returns at once or waits for a process.
\<close>

datatype 'a progress = Done 'a | Await nat

definition getBlame_start :: "editor \<Rightarrow> world \<Rightarrow> blame_result progress \<times> world" where
  "getBlame_start ed w =
     (if \<not> startsWith (path ed) ''/'' then (Done (Error ''Cannot blame non-existent file''), w)
      else
        let w1 = (case activeBlame w of
                    Some p \<Rightarrow> (kill p ''SIGKILL'' w)\<lparr>activeBlame := None\<rparr>
                  | None \<Rightarrow> w);
            cmd = runCommand ''git''
                    [''blame'', ''-C'', ''--porcelain'', ''-L'',
                     decimal (line ed + 1) @ '',+1'', path ed]
                    (Dirname (path ed));
            pid = length (processes w1);
            w2 = w1\<lparr>processes := processes w1 @ [cmd]\<rparr>;
            w3 = w2\<lparr>activeBlame := Some pid\<rparr>
        in (Await pid, w3))"

definition getBlame_resume :: "string option \<Rightarrow> world \<Rightarrow> (js_exn + blame_result) \<times> world" where
  "getBlame_resume result w =
     (let w1 = w\<lparr>activeBlame := None\<rparr>
      in case result of
           None \<Rightarrow> (Inr (Error ''Unknown error..''), w1)
         | Some r \<Rightarrow>
             if r = [] then (Inr (Error ''Unknown error..''), w1)
             else (parseBlame r, w1))"

subsection \<open>Lookups and process events in their order of arrival\<close>

text \<open>
  Handlers run one at a time. An event is a lookup started by the editor, a chunk of
  output of a process, or the termination of a process; events of a process whose
  promise is resolved no longer arrive. When a process closes, its promise is resolved
  and the lookup that waits for it goes on. \<open>returned\<close> records what each lookup gave
  back: the process it waited for (none when it returned at once) and its result, a
  thrown exception being the rejection of the lookup's promise.
\<close>

datatype event = Lookup editor | Data nat stream_event | Closed nat

record system =
  shared :: world
  returned :: "(nat option \<times> (js_exn + blame_result)) list"

definition update_process ::
  "nat \<Rightarrow> (command_process \<Rightarrow> command_process) \<Rightarrow> world \<Rightarrow> world" where
  "update_process pid f w = w\<lparr>processes := (processes w)[pid := f (processes w ! pid)]\<rparr>"

definition running :: "world \<Rightarrow> nat \<Rightarrow> bool" where
  "running w pid = (pid < length (processes w) \<and> promise (processes w ! pid) = Pending)"

fun handle :: "event \<Rightarrow> system \<Rightarrow> system" where
  "handle (Lookup ed) sys =
     (case getBlame_start ed (shared sys) of
        (Done r, w) \<Rightarrow> \<lparr>shared = w, returned = returned sys @ [(None, Inr r)]\<rparr>
      | (Await pid, w) \<Rightarrow> \<lparr>shared = w, returned = returned sys\<rparr>)"
| "handle (Data pid ev) sys =
     (if running (shared sys) pid
      then sys\<lparr>shared := update_process pid (on_data ev) (shared sys)\<rparr>
      else sys)"
| "handle (Closed pid) sys =
     (if running (shared sys) pid
      then
        let w1 = update_process pid on_close (shared sys)
        in case promise (processes w1 ! pid) of
             Resolved result \<Rightarrow>
               (case getBlame_resume result w1 of
                  (r, w2) \<Rightarrow> \<lparr>shared = w2, returned = returned sys @ [(Some pid, r)]\<rparr>)
           | Pending \<Rightarrow> sys\<lparr>shared := w1\<rparr>
      else sys)"

definition initial :: system where
  "initial = \<lparr>shared = \<lparr>processes = [], activeBlame = None\<rparr>, returned = []\<rparr>"

definition run :: "event list \<Rightarrow> system \<Rightarrow> system" where
  "run evs sys = fold handle evs sys"

section \<open>The relative time formatter (time.ts)\<close>

datatype time_unit = Seconds | Minutes | Hours | Days | Weeks | Months | Years

datatype division = Division (amount: js_number) (unit_name: time_unit)

definition DIVISIONS :: "division list" where
  "DIVISIONS =
     [Division (Fin 60) Seconds,
      Division (Fin 60) Minutes,
      Division (Fin 24) Hours,
      Division (Fin 7) Days,
      Division (to_number (434524 / 100000)) Weeks,
      Division (Fin 12) Months,
      Division PosInf Years]"

text \<open>
  \<open>formatter.format(value, unit)\<close> of \<open>Intl.RelativeTimeFormat\<close>: a phrase for a finite
  value, a RangeError otherwise. The wording of the phrase belongs to the platform; a
  phrase is kept as the value and unit it denotes.
\<close>

datatype phrase = Phrase rat time_unit

fun format :: "js_number \<Rightarrow> time_unit \<Rightarrow> js_exn + phrase" where
  "format (Fin v) u = Inr (Phrase v u)"
| "format a u = Inl RangeError"

text \<open>
  The loop over \<open>DIVISIONS\<close>: it returns from inside at the first division whose amount
  exceeds the absolute duration, or runs out of divisions.
\<close>

datatype loop_exit = Returned js_number time_unit | Fell_through js_number

fun walk :: "js_number \<Rightarrow> division list \<Rightarrow> loop_exit" where
  "walk duration [] = Fell_through duration"
| "walk duration (d # ds) =
     (if js_less (js_abs duration) (amount d) then Returned duration (unit_name d)
      else walk (js_div duration (amount d)) ds)"

text \<open>
  \<open>formatTimeAgo(date)\<close>, given \<open>date.getTime()\<close> and the clock reading
  \<open>new Date().getTime()\<close>, both in milliseconds.
\<close>

definition formatTimeAgo :: "js_number \<Rightarrow> js_number \<Rightarrow> js_exn + phrase" where
  "formatTimeAgo date_time now =
     (let duration = js_div (js_sub date_time now) (Fin 1000)
      in case walk duration DIVISIONS of
           Returned d u \<Rightarrow> format (Math_round d) u
         | Fell_through d \<Rightarrow> format (Math_round d) Seconds)"

section \<open>Words of the specification\<close>

text \<open>
  The first line of a text, the token of a line up to its first space, the rest of a
  line after its first space, and lines joined by newlines.
\<close>

definition first_line :: "string \<Rightarrow> string" where
  "first_line s = takeWhile (\<lambda>c. c \<noteq> CHR 0x0A) s"

definition up_to_first_space :: "string \<Rightarrow> string" where
  "up_to_first_space l = takeWhile (\<lambda>c. c \<noteq> CHR '' '') l"

definition after_first_space :: "string \<Rightarrow> string" where
  "after_first_space l = drop 1 (dropWhile (\<lambda>c. c \<noteq> CHR '' '') l)"

fun join_lines :: "string list \<Rightarrow> string" where
  "join_lines [] = []"
| "join_lines [l] = l"
| "join_lines (l # m # ms) = l @ CHR 0x0A # join_lines (m # ms)"

text \<open>
  The formatter in the words of the specification. The thresholds and units of the tiers,
  in order; the duration in seconds between a target and the clock reading; the duration
  divided by the thresholds of the first \<open>k\<close> tiers; and the tier at which the walk stops:
  the first tier whose threshold exceeds the absolute value of the duration divided so
  far.
\<close>

definition THRESHOLDS :: "js_number list" where
  "THRESHOLDS = [Fin 60, Fin 60, Fin 24, Fin 7, to_number (434524 / 100000), Fin 12, PosInf]"

definition UNITS :: "time_unit list" where
  "UNITS = [Seconds, Minutes, Hours, Days, Weeks, Months, Years]"

definition seconds_between :: "js_number \<Rightarrow> js_number \<Rightarrow> js_number" where
  "seconds_between target now = js_div (js_sub target now) (Fin 1000)"

definition divided :: "js_number \<Rightarrow> nat \<Rightarrow> js_number" where
  "divided d k = foldl js_div d (take k THRESHOLDS)"

definition below_threshold :: "js_number \<Rightarrow> nat \<Rightarrow> bool" where
  "below_threshold d k = js_less (js_abs (divided d k)) (THRESHOLDS ! k)"

definition stops_at :: "js_number \<Rightarrow> nat \<Rightarrow> bool" where
  "stops_at d k =
     (k < length THRESHOLDS \<and> below_threshold d k
      \<and> list_all (\<lambda>j. \<not> below_threshold d j) [0..<k])"

text \<open>
  A division whose amount is at least one (or infinite): so many of the previous unit
  make one of this unit.
\<close>

definition coarser :: "division \<Rightarrow> bool" where
  "coarser d = (case amount d of Fin a \<Rightarrow> 1 \<le> a | PosInf \<Rightarrow> True | _ \<Rightarrow> False)"

section \<open>Facts about the model\<close>

declare decimal.simps [simp del]
declare bit_length.simps [simp del]

subsection \<open>Rounding to a double\<close>

lemma bit_length_pos: "0 < n \<Longrightarrow> 0 < bit_length n"
  by (subst bit_length.simps) simp

lemma bit_length_bounds:
  "0 < n \<Longrightarrow> 2 ^ (bit_length n - 1) \<le> n \<and> n < 2 ^ bit_length n"
proof (induction n rule: bit_length.induct)
  case (1 n)
  have bl: "bit_length n = Suc (bit_length (n div 2))"
    using "1.prems" by (subst bit_length.simps) simp
  show ?case
  proof (cases "n = 1")
    case True
    then show ?thesis
      by (simp add: bl) (simp add: bit_length.simps)
  next
    case False
    with "1.prems" have pos: "0 < n div 2" by simp
    from "1.IH" "1.prems" pos
    have ih: "2 ^ (bit_length (n div 2) - 1) \<le> n div 2" "n div 2 < 2 ^ bit_length (n div 2)"
      by simp_all
    from bit_length_pos [OF pos] obtain k where k: "bit_length (n div 2) = Suc k"
      by (cases "bit_length (n div 2)") auto
    from ih have "2 * 2 ^ k \<le> 2 * (n div 2)" "2 * (n div 2) + 2 \<le> 2 * 2 ^ Suc k"
      by (simp_all add: k)
    then show ?thesis
      by (simp add: bl k) linarith
  qed
qed

lemma floor_log2_le:
  assumes "0 < x"
  shows "2 powi (floor_log2 x) \<le> x"
proof -
  obtain p q where pq: "quotient_of x = (p, q)" by (cases "quotient_of x")
  then have q: "0 < q" and x: "x = of_int p / of_int q"
    by (auto dest: quotient_of_denom_pos quotient_of_div)
  with assms have p: "0 < p"
    by (simp add: zero_less_divide_iff)
  let ?e0 = "int (bit_length p) - int (bit_length q)"
  show ?thesis
  proof (cases "2 powi ?e0 \<le> x")
    case True
    then show ?thesis by (simp add: floor_log2_def pq)
  next
    case False
    then have fl: "floor_log2 x = ?e0 - 1" by (simp add: floor_log2_def pq)
    from bit_length_bounds [OF p] have "(2::int) ^ (bit_length p - 1) \<le> p" by simp
    then have "(of_int ((2::int) ^ (bit_length p - 1)) :: rat) \<le> of_int p"
      by (simp only: of_int_le_iff)
    then have lo: "(2::rat) ^ (bit_length p - 1) \<le> of_int p" by simp
    from bit_length_bounds [OF q] have "q < (2::int) ^ bit_length q" by simp
    then have "(of_int q :: rat) < of_int ((2::int) ^ bit_length q)"
      by (simp only: of_int_less_iff)
    then have hi: "(of_int q :: rat) < 2 ^ bit_length q" by simp
    have "2 powi (?e0 - 1) = (2::rat) ^ (bit_length p - 1) / 2 ^ bit_length q"
      using bit_length_pos [OF p]
      by (simp add: power_int_diff power_int_minus_left of_nat_diff Suc_leI flip: power_int_of_nat)
    also have "\<dots> \<le> of_int p / of_int q"
      using lo hi q p by (intro frac_le) auto
    finally have "2 powi (?e0 - 1) \<le> x" unfolding x .
    then show ?thesis unfolding fl .
  qed
qed


lemma floor_log2_bound:
  assumes "0 < x" and "x \<le> 2 powi k"
  shows "floor_log2 x \<le> k"
proof (rule ccontr)
  assume "\<not> floor_log2 x \<le> k"
  then have "(2::rat) powi k < 2 powi (floor_log2 x)"
    by (intro power_int_strict_increasing) auto
  also have "\<dots> \<le> x" by (rule floor_log2_le [OF assms(1)])
  finally show False using assms(2) by simp
qed

lemma round_half_even_le: "y \<le> of_int N \<Longrightarrow> round_half_even y \<le> N"
  unfolding round_half_even_def Let_def
  by (auto simp: floor_le_iff le_floor_iff not_less)

lemma round_half_even_nonneg: "0 \<le> y \<Longrightarrow> 0 \<le> round_half_even y"
  unfolding round_half_even_def Let_def by auto

lemma round_half_even_of_int: "round_half_even (of_int k) = k"
  unfolding round_half_even_def Let_def by simp


lemma to_number_bounded:
  assumes "\<bar>x\<bar> \<le> 2 ^ k" and "k < 1024"
  shows "\<exists>y. to_number x = Fin y \<and> \<bar>y\<bar> \<le> 2 ^ k"
proof (cases "x = 0")
  case True
  then show ?thesis by (simp add: to_number_def)
next
  case False
  define a where "a = \<bar>x\<bar>"
  define e where "e = max (floor_log2 a) (- 1022)"
  define q :: rat where "q = 2 powi (e - 52)"
  define m where "m = round_half_even (a / q)"
  define N :: int where "N = 2 ^ nat (int k + 52 - e)"
  have a: "0 < a" "a \<le> 2 powi (int k)"
    using False assms(1) by (simp_all add: a_def)
  have e: "e \<le> int k"
    using floor_log2_bound [OF a] by (simp add: e_def)
  have q: "0 < q" by (simp add: q_def)
  have Nq: "of_int N * q = 2 ^ k"
  proof -
    have "of_int N = (2::rat) powi (int k + 52 - e)"
      using e by (simp add: N_def power_int_def)
    moreover have "(2::rat) powi ((int k + 52 - e) + (e - 52)) =
        2 powi (int k + 52 - e) * 2 powi (e - 52)"
      by (rule power_int_add) simp
    ultimately have "of_int N * q = (2::rat) powi ((int k + 52 - e) + (e - 52))"
      unfolding q_def by simp
    then show ?thesis by simp
  qed
  have "a / q \<le> 2 ^ k / q"
    using a(2) q by (simp add: divide_right_mono)
  also have "\<dots> = of_int N"
    using Nq q by (simp add: field_simps)
  finally have "m \<le> N"
    unfolding m_def by (rule round_half_even_le)
  then have "of_int m * q \<le> of_int N * q"
    using q by (simp add: mult_right_mono)
  then have r: "of_int m * q \<le> 2 ^ k"
    by (simp only: Nq)
  have m0: "0 \<le> m"
    unfolding m_def using a(1) q by (intro round_half_even_nonneg) simp
  then have r0: "0 \<le> of_int m * q"
    using q by simp
  have "(2::rat) ^ k < 2 ^ 1024"
    using assms(2) by (intro power_strict_increasing) auto
  with r have small: "\<not> 2 powi 1024 \<le> of_int m * q"
    by simp
  have "to_number x = Fin (if 0 < x then of_int m * q else - (of_int m * q))"
    using False small
    by (simp add: to_number_def Let_def a_def [symmetric] e_def [symmetric]
        q_def [symmetric] m_def [symmetric])
  with r r0 show ?thesis by auto
qed

lemma to_number_of_int:
  assumes "\<bar>n\<bar> < 2 ^ 53"
  shows "to_number (of_int n) = Fin (of_int n)"
proof (cases "n = 0")
  case True
  then show ?thesis by (simp add: to_number_def)
next
  case False
  define a :: rat where "a = \<bar>of_int n\<bar>"
  define e where "e = max (floor_log2 a) (- 1022)"
  define q :: rat where "q = 2 powi (e - 52)"
  have a: "0 < a" "a \<le> 2 powi 52 * 2"
  proof -
    show "0 < a" using False by (simp add: a_def)
    have "\<bar>n\<bar> \<le> 2 ^ 53" using assms by simp
    then have "(of_int \<bar>n\<bar> :: rat) \<le> of_int (2 ^ 53)" by (simp only: of_int_le_iff)
    then show "a \<le> 2 powi 52 * 2" by (simp add: a_def)
  qed
  have lt: "a < 2 powi 53"
  proof -
    have "(of_int \<bar>n\<bar> :: rat) < of_int (2 ^ 53)" using assms by (simp only: of_int_less_iff)
    then show ?thesis by (simp add: a_def)
  qed
  have "floor_log2 a < 53"
  proof (rule ccontr)
    assume "\<not> floor_log2 a < 53"
    then have "(2::rat) powi 53 \<le> 2 powi (floor_log2 a)"
      by (intro power_int_increasing) auto
    also have "\<dots> \<le> a" by (rule floor_log2_le [OF a(1)])
    finally show False using lt by simp
  qed
  then have e: "e \<le> 52" by (simp add: e_def)
  have q: "0 < q" by (simp add: q_def)
  have inv: "1 / q = of_int (2 ^ nat (52 - e))"
    using e by (simp add: q_def power_int_def field_simps)
  have "a / q = a * (1 / q)" by simp
  also have "\<dots> = a * of_int (2 ^ nat (52 - e))" by (simp only: inv)
  also have "\<dots> = of_int (\<bar>n\<bar> * 2 ^ nat (52 - e))" by (simp add: a_def)
  finally have "a / q = of_int (\<bar>n\<bar> * 2 ^ nat (52 - e))" .
  then have "round_half_even (a / q) = \<bar>n\<bar> * 2 ^ nat (52 - e)"
    by (simp only: round_half_even_of_int)
  then have r: "of_int (round_half_even (a / q)) * q = a"
    using inv q by (simp add: a_def field_simps)
  have small: "\<not> 2 powi 1024 \<le> a"
  proof -
    have "(2::rat) powi 53 < 2 powi 1024"
      by (intro power_int_strict_increasing) auto
    with lt show ?thesis by simp
  qed
  have "to_number (of_int n) = Fin (if 0 < (of_int n :: rat) then a else - a)"
    using False small r
    by (simp add: to_number_def Let_def a_def [symmetric] e_def [symmetric]
        q_def [symmetric])
  then show ?thesis by (simp add: a_def)
qed

lemma to_number_numeral:
  "numeral k < (2::int) ^ 53 \<Longrightarrow> to_number (numeral k) = Fin (numeral k)"
  using to_number_of_int [of "numeral k"] by simp

lemma to_number_neg_numeral:
  "numeral k < (2::int) ^ 53 \<Longrightarrow> to_number (- numeral k) = Fin (- numeral k)"
  using to_number_of_int [of "- numeral k"] by simp

subsection \<open>Strings and lines\<close>

lemma split_not_Nil: "split sep s \<noteq> []"
  by (induction s) (auto split: list.splits)

lemma hd_split: "hd (split sep s) = takeWhile (\<lambda>c. c \<noteq> sep) s"
  by (induction s) (auto split: list.splits simp: split_not_Nil)

lemma split_append_sep:
  "sep \<notin> set l \<Longrightarrow> split sep (l @ sep # rest) = l # split sep rest"
  by (induction l) auto

lemma split_no_sep: "sep \<notin> set l \<Longrightarrow> split sep l = [l]"
  by (induction l) auto

lemma split_join_lines:
  "ls \<noteq> [] \<Longrightarrow> \<forall>l \<in> set ls. CHR 0x0A \<notin> set l \<Longrightarrow> split CHR 0x0A (join_lines ls) = ls"
  by (induction ls rule: join_lines.induct) (auto simp: split_no_sep split_append_sep)

lemma indexOf_absent: "c \<notin> set l \<Longrightarrow> indexOf l c = -1"
  by (induction l) (auto simp: Let_def)

lemma indexOf_present:
  "c \<in> set l \<Longrightarrow> indexOf l c = int (length (takeWhile (\<lambda>x. x \<noteq> c) l))"
  by (induction l) (auto simp: Let_def indexOf_absent)

lemma clamp_index_simps:
  "clamp_index l 0 = 0" "clamp_index l (-1) = 0"
  "n \<le> length l \<Longrightarrow> clamp_index l (int n) = n"
  "n \<le> length l \<Longrightarrow> clamp_index l (int n + 1) = min (Suc n) (length l)"
  by (auto simp: clamp_index_def)

lemma substring_to_indexOf:
  "substring l 0 (indexOf l c) = (if c \<in> set l then takeWhile (\<lambda>x. x \<noteq> c) l else [])"
proof (cases "c \<in> set l")
  case True
  let ?n = "length (takeWhile (\<lambda>x. x \<noteq> c) l)"
  have "?n \<le> length l" by (rule length_takeWhile_le)
  then have "substring l 0 (indexOf l c) = take ?n l"
    using True by (simp add: substring_def indexOf_present clamp_index_simps)
  also have "\<dots> = takeWhile (\<lambda>x. x \<noteq> c) l"
    by (rule takeWhile_eq_take [symmetric])
  finally show ?thesis using True by simp
next
  case False
  then show ?thesis
    by (simp add: substring_def indexOf_absent clamp_index_simps)
qed

lemma substring_from_indexOf:
  "substring_from l (indexOf l c + 1) =
     (if c \<in> set l then drop 1 (dropWhile (\<lambda>x. x \<noteq> c) l) else l)"
proof (cases "c \<in> set l")
  case True
  let ?n = "length (takeWhile (\<lambda>x. x \<noteq> c) l)"
  have n: "?n < length l" using True
    by (induction l) auto
  then have "substring_from l (indexOf l c + 1) = drop (Suc ?n) l"
    using True by (simp add: substring_from_def indexOf_present clamp_index_simps)
  also have "\<dots> = drop 1 (drop ?n l)"
    by simp
  also have "\<dots> = drop 1 (dropWhile (\<lambda>x. x \<noteq> c) l)"
    by (simp only: dropWhile_eq_drop)
  finally show ?thesis using True by simp
next
  case False
  then show ?thesis
    by (simp add: substring_from_def indexOf_absent clamp_index_simps)
qed

section \<open>Claims about the blame parser\<close>

lemma line_at_nth: "i < length ls \<Longrightarrow> line_at ls i = Inr (ls ! i)"
  by (simp add: line_at_def)

lemma field_at_nth:
  "i < length ls \<Longrightarrow> CHR '' '' \<in> set (ls ! i) \<Longrightarrow> field_at ls i = Inr (after_first_space (ls ! i))"
  by (simp add: field_at_def line_at_nth substring_from_indexOf after_first_space_def)

text \<open>
  Claim C1. A text of at least ten newline-separated lines, where lines 0, 1, 2, 3, 5, 6, 7
  and 9 each hold a space and the token of line 0 up to its first space is not the all-zero
  hash, is parsed into a record (no failure, no exception): names, e-mail addresses and
  summary are what follows the first space of lines 1, 2, 5, 6 and 9, the two times are
  \<open>parseInt\<close> of what follows the first space of lines 3 and 7, and \<open>sha\<close> is line 0 up to
  its first space.
\<close>

theorem parseBlame_well_formed:
  assumes len: "10 \<le> length ls"
    and nl: "\<forall>l \<in> set ls. CHR 0x0A \<notin> set l"
    and sp: "\<forall>i \<in> {0, 1, 2, 3, 5, 6, 7, 9}. CHR '' '' \<in> set (ls ! i)"
    and sha: "up_to_first_space (ls ! 0) \<noteq> ZERO_SHA"
  shows "parseBlame (join_lines ls) =
    Inr (Blame
      \<lparr>author = \<lparr>name = after_first_space (ls ! 1), email = after_first_space (ls ! 2),
                  time = parseInt (after_first_space (ls ! 3))\<rparr>,
       committer = \<lparr>name = after_first_space (ls ! 5), email = after_first_space (ls ! 6),
                     time = parseInt (after_first_space (ls ! 7))\<rparr>,
       summary = after_first_space (ls ! 9),
       sha = up_to_first_space (ls ! 0)\<rparr>)"
proof -
  from len have ne: "ls \<noteq> []" by auto
  have lines: "split CHR 0x0A (join_lines ls) = ls"
    using ne nl by (rule split_join_lines)
  have l0: "line_at ls 0 = Inr (ls ! 0)"
    using ne by (simp add: line_at_def)
  have rev: "revisionId ls = Inr (up_to_first_space (ls ! 0))"
    using sp by (simp add: revisionId_def l0 substring_to_indexOf up_to_first_space_def)
  have f: "field_at ls 1 = Inr (after_first_space (ls ! 1))"
    "field_at ls 2 = Inr (after_first_space (ls ! 2))"
    "field_at ls 3 = Inr (after_first_space (ls ! 3))"
    "field_at ls 5 = Inr (after_first_space (ls ! 5))"
    "field_at ls 6 = Inr (after_first_space (ls ! 6))"
    "field_at ls 7 = Inr (after_first_space (ls ! 7))"
    "field_at ls 9 = Inr (after_first_space (ls ! 9))"
    using len sp by (simp_all add: field_at_nth)
  show ?thesis
    unfolding parseBlame_def lines Let_def rev f using sha by simp
qed

text \<open>
  The theorem at a ten-line porcelain text.
\<close>

theorem parseBlame_well_formed_witness:
  "parseBlame (join_lines
     [''4b825dc642cb6eb9a060e54bf8d69288fbee4904 12 12 1'',
      ''author A U Thor'',
      ''author-mail <author@example.com>'',
      ''author-time 1700000000'',
      ''author-tz +0100'',
      ''committer C O Mitter'',
      ''committer-mail <committer@example.com>'',
      ''committer-time 1700000123'',
      ''committer-tz +0100'',
      ''summary Fix the parser'']) =
   Inr (Blame
      \<lparr>author = \<lparr>name = ''A U Thor'', email = ''<author@example.com>'',
                  time = Fin 1700000000\<rparr>,
       committer = \<lparr>name = ''C O Mitter'', email = ''<committer@example.com>'',
                     time = Fin 1700000123\<rparr>,
       summary = ''Fix the parser'',
       sha = ''4b825dc642cb6eb9a060e54bf8d69288fbee4904''\<rparr>)"
  using parseBlame_well_formed [of
     "[''4b825dc642cb6eb9a060e54bf8d69288fbee4904 12 12 1'',
      ''author A U Thor'',
      ''author-mail <author@example.com>'',
      ''author-time 1700000000'',
      ''author-tz +0100'',
      ''committer C O Mitter'',
      ''committer-mail <committer@example.com>'',
      ''committer-time 1700000123'',
      ''committer-tz +0100'',
      ''summary Fix the parser'']"]
  by (simp add: up_to_first_space_def after_first_space_def ZERO_SHA_def parseInt_def
      is_white_space_def is_digit_def digits_value_def digit_value_def
      to_number_numeral)


lemma split_Cons: "split sep s = first # rest \<Longrightarrow> first = takeWhile (\<lambda>c. c \<noteq> sep) s"
  using hd_split [of sep s] by simp

lemma line_at_0_split:
  "line_at (split CHR 0x0A s) 0 = Inr (first_line s)"
proof -
  obtain l ls where ls: "split CHR 0x0A s = l # ls"
    using split_not_Nil [of "CHR 0x0A" s] by (cases "split CHR 0x0A s") auto
  then have "l = first_line s"
    unfolding first_line_def by (rule split_Cons)
  with ls show ?thesis by (simp add: line_at_def)
qed

lemma revisionId_split:
  "revisionId (split CHR 0x0A s) =
     Inr (if CHR '' '' \<in> set (first_line s) then up_to_first_space (first_line s) else [])"
  by (simp add: revisionId_def line_at_0_split substring_to_indexOf up_to_first_space_def)

text \<open>
  Claim C2. When the first line holds a space and its token up to the first space is the
  hash of forty zeros, \<open>parseBlame\<close> returns the error "Change not committed yet", whatever
  the other lines are (there need not be any).
\<close>

theorem parseBlame_uncommitted:
  assumes "CHR '' '' \<in> set (first_line s)"
    and "up_to_first_space (first_line s) = ZERO_SHA"
  shows "parseBlame s = Inr (Error ''Change not committed yet'')"
  using assms by (simp add: parseBlame_def revisionId_split)

text \<open>
  The theorem at a two-line text whose second line is no porcelain line.
\<close>

theorem parseBlame_uncommitted_witness:
  "parseBlame (ZERO_SHA @ '' 7 7 1'' @ [CHR 0x0A] @ ''not a porcelain line'') =
     Inr (Error ''Change not committed yet'')"
  using parseBlame_uncommitted
    [of "ZERO_SHA @ '' 7 7 1'' @ [CHR 0x0A] @ ''not a porcelain line''"]
  by (simp add: first_line_def up_to_first_space_def ZERO_SHA_def)

lemma field_at_cases:
  "field_at ls i = (if i < length ls
     then Inr (substring_from (ls ! i) (indexOf (ls ! i) CHR '' '' + 1)) else Inl TypeError)"
  by (simp add: field_at_def line_at_def)

lemma and_then_if:
  "and_then (if c then Inr v else Inl e) f = (if c then f v else Inl e)"
  by simp

lemma parseBlame_cases:
  "parseBlame s =
     (if revisionId (split CHR 0x0A s) = Inr ZERO_SHA then Inr (Error ''Change not committed yet'')
      else if length (split CHR 0x0A s) < 10 then Inl TypeError
      else Inr (Blame
        \<lparr>author = \<lparr>name = projr (field_at (split CHR 0x0A s) 1),
                    email = projr (field_at (split CHR 0x0A s) 2),
                    time = parseInt (projr (field_at (split CHR 0x0A s) 3))\<rparr>,
         committer = \<lparr>name = projr (field_at (split CHR 0x0A s) 5),
                       email = projr (field_at (split CHR 0x0A s) 6),
                       time = parseInt (projr (field_at (split CHR 0x0A s) 7))\<rparr>,
         summary = projr (field_at (split CHR 0x0A s) 9),
         sha = projr (revisionId (split CHR 0x0A s))\<rparr>))"
  by (simp add: parseBlame_def revisionId_split field_at_cases Let_def and_then_if)

text \<open>
  Claim C10. When the first line holds no space, \<open>indexOf\<close> gives -1 and the revision
  id read from it is the empty string. So the result is never the error "Change not
  committed yet", also when the first line is forty zeros, and a record that is returned
  has an empty \<open>sha\<close>.
\<close>

theorem parseBlame_first_line_without_space:
  assumes "CHR '' '' \<notin> set (first_line s)"
  shows "revisionId (split CHR 0x0A s) = Inr []
     \<and> parseBlame s \<noteq> Inr (Error ''Change not committed yet'')
     \<and> (parseBlame s = Inl TypeError \<or> (\<exists>b. parseBlame s = Inr (Blame b) \<and> sha b = []))"
  using assms by (simp add: parseBlame_cases revisionId_split ZERO_SHA_def)


text \<open>
  The theorem at a ten-line text whose first line is exactly forty zeros.
\<close>

theorem parseBlame_first_line_without_space_witness:
  "revisionId (split CHR 0x0A (join_lines
      [ZERO_SHA, ''author A'', ''author-mail <a@b>'', ''author-time 1'', ''author-tz +0000'',
       ''committer C'', ''committer-mail <c@d>'', ''committer-time 2'', ''committer-tz +0000'',
       ''summary S''])) = Inr []
   \<and> parseBlame (join_lines
      [ZERO_SHA, ''author A'', ''author-mail <a@b>'', ''author-time 1'', ''author-tz +0000'',
       ''committer C'', ''committer-mail <c@d>'', ''committer-time 2'', ''committer-tz +0000'',
       ''summary S'']) \<noteq> Inr (Error ''Change not committed yet'')
   \<and> (parseBlame (join_lines
      [ZERO_SHA, ''author A'', ''author-mail <a@b>'', ''author-time 1'', ''author-tz +0000'',
       ''committer C'', ''committer-mail <c@d>'', ''committer-time 2'', ''committer-tz +0000'',
       ''summary S'']) = Inl TypeError
     \<or> (\<exists>b. parseBlame (join_lines
      [ZERO_SHA, ''author A'', ''author-mail <a@b>'', ''author-time 1'', ''author-tz +0000'',
       ''committer C'', ''committer-mail <c@d>'', ''committer-time 2'', ''committer-tz +0000'',
       ''summary S'']) = Inr (Blame b) \<and> sha b = []))"
  using parseBlame_first_line_without_space [of "join_lines
      [ZERO_SHA, ''author A'', ''author-mail <a@b>'', ''author-time 1'', ''author-tz +0000'',
       ''committer C'', ''committer-mail <c@d>'', ''committer-time 2'', ''committer-tz +0000'',
       ''summary S'']"]
  by (simp add: first_line_def ZERO_SHA_def)

lemma length_processes_kill: "length (processes (kill p sig w)) = length (processes w)"
  by (simp add: kill_def)

lemma fst_getBlame_start:
  "fst (getBlame_start ed w) =
     (if startsWith (path ed) ''/'' then Await (length (processes w))
      else Done (Error ''Cannot blame non-existent file''))"
  by (simp add: getBlame_start_def Let_def length_processes_kill split: option.splits)

text \<open>
  Claim C7, as the code has it. A path that is not absolute, a process without output
  and the all-zero revision id are each answered by a returned \<open>Error\<close> value with its own
  message. There is no value for malformed output: \<open>parseBlame\<close> throws a TypeError
  exactly when the text has fewer than ten lines and its revision id is not the all-zero
  hash, and returns a record exactly when it has at least ten lines and its revision id
  is not the all-zero hash.
\<close>

theorem failures_returned_or_thrown:
  "fst (getBlame_start ed w) =
     (if startsWith (path ed) ''/'' then Await (length (processes w))
      else Done (Error ''Cannot blame non-existent file''))
   \<and> fst (getBlame_resume None w) = Inr (Error ''Unknown error..'')
   \<and> (parseBlame s = Inr (Error ''Change not committed yet'')) =
       (revisionId (split CHR 0x0A s) = Inr ZERO_SHA)
   \<and> (parseBlame s = Inl TypeError) =
       (length (split CHR 0x0A s) < 10 \<and> revisionId (split CHR 0x0A s) \<noteq> Inr ZERO_SHA)
   \<and> (\<exists>b. parseBlame s = Inr (Blame b)) =
       (10 \<le> length (split CHR 0x0A s) \<and> revisionId (split CHR 0x0A s) \<noteq> Inr ZERO_SHA)"
  by (auto simp: fst_getBlame_start getBlame_resume_def parseBlame_cases)

text \<open>
  Claim C7 as stated fails: on a one-line text \<open>lines[1]\<close> is \<open>undefined\<close> and the call of
  \<open>indexOf\<close> on it throws.
\<close>

theorem parseBlame_short_input_throws:
  "parseBlame ''fatal: no such path'' = Inl TypeError"
  by (simp add: parseBlame_def revisionId_def field_at_def line_at_def substring_def
      clamp_index_def ZERO_SHA_def)

section \<open>Claims about the process runner\<close>

lemma fold_on_data:
  "buffer (fold on_data evs p) = buffer p @ concat (stdout_chunks evs)
   \<and> promise (fold on_data evs p) = promise p"
proof (induction evs arbitrary: p)
  case Nil
  show ?case by simp
next
  case (Cons ev evs)
  show ?case
    by (cases ev) (simp_all add: Cons.IH)
qed

text \<open>
  Claim C5. Whatever data events arrive and in whatever order, at \<open>close\<close> the promise is
  resolved (a promise of \<open>runCommand\<close> cannot be rejected) with the concatenation of the
  chunks of standard output in their order of arrival when that is not empty, and with
  \<open>undefined\<close> when it is empty; never with the empty string.
\<close>

theorem runCommand_resolves_with_output:
  "promise (run_to_close evs (runCommand cmd arguments opts)) =
     Resolved (if concat (stdout_chunks evs) = [] then None
               else Some (concat (stdout_chunks evs)))
   \<and> promise (run_to_close evs (runCommand cmd arguments opts)) \<noteq> Resolved (Some [])"
  by (simp add: run_to_close_def on_close_def fold_on_data runCommand_def resolve_def)

text \<open>
  The theorem for "abc" arriving in two chunks, and for a process that only writes to
  standard error.
\<close>

theorem runCommand_resolves_with_output_witness:
  "promise (run_to_close [Stdout ''a'', Stderr ''warning'', Stdout ''bc'']
      (runCommand ''git'' [''blame''] (Dirname ''/repo/file.ts''))) = Resolved (Some ''abc'')
   \<and> promise (run_to_close [Stderr ''fatal: not a git repository'']
      (runCommand ''git'' [''blame''] (Dirname ''/tmp/file.ts''))) = Resolved None"
  using runCommand_resolves_with_output
          [of "[Stdout ''a'', Stderr ''warning'', Stdout ''bc'']" "''git''" "[''blame'']"
              "Dirname ''/repo/file.ts''"]
        runCommand_resolves_with_output
          [of "[Stderr ''fatal: not a git repository'']" "''git''" "[''blame'']"
              "Dirname ''/tmp/file.ts''"]
  by simp

text \<open>
  Claim C9. For a path that does not start with "/", \<open>getBlame\<close> returns the error
  "Cannot blame non-existent file" and leaves the shared state as it was: no process is
  spawned, no running process is killed and \<open>activeBlame\<close> keeps its value.
\<close>

theorem getBlame_rejects_relative_path:
  assumes "\<not> startsWith (path ed) ''/''"
  shows "getBlame_start ed w = (Done (Error ''Cannot blame non-existent file''), w)
     \<and> shared (handle (Lookup ed) sys) = shared sys
     \<and> returned (handle (Lookup ed) sys) =
         returned sys @ [(None, Inr (Error ''Cannot blame non-existent file''))]"
  using assms by (simp add: getBlame_start_def)

text \<open>
  The theorem for an untitled document while a process of an earlier lookup is running.
\<close>

theorem getBlame_rejects_relative_path_witness:
  "getBlame_start \<lparr>path = ''Untitled-1'', line = 0\<rparr>
      \<lparr>processes = [runCommand ''git'' [''blame''] (Dirname ''/repo/file.ts'')],
       activeBlame = Some 0\<rparr> =
     (Done (Error ''Cannot blame non-existent file''),
      \<lparr>processes = [runCommand ''git'' [''blame''] (Dirname ''/repo/file.ts'')],
       activeBlame = Some 0\<rparr>)"
  using getBlame_rejects_relative_path [of "\<lparr>path = ''Untitled-1'', line = 0\<rparr>"
      "\<lparr>processes = [runCommand ''git'' [''blame''] (Dirname ''/repo/file.ts'')],
       activeBlame = Some 0\<rparr>"]
  by (simp add: startsWith_def)

text \<open>
  Claim C4 fails for three lookups in a row. The second lookup kills the process of the
  first (process 0 gets SIGKILL) and makes its own process the active one. When the killed process closes, the
  first lookup goes on and sets \<open>activeBlame\<close> to \<open>null\<close>, although the active process is
  by then the second one. The third lookup finds no active process: the process of the
  second lookup is still running and receives no signal.
\<close>

theorem stale_lookup_clears_activeBlame:
  "signal (processes (shared (run [Lookup \<lparr>path = ''/repo/file.ts'', line = 0\<rparr>,
                         Lookup \<lparr>path = ''/repo/file.ts'', line = 1\<rparr>] initial)) ! 0) =
     Some ''SIGKILL''
   \<and> running (shared (run [Lookup \<lparr>path = ''/repo/file.ts'', line = 0\<rparr>,
                         Lookup \<lparr>path = ''/repo/file.ts'', line = 1\<rparr>,
                         Closed 0,
                         Lookup \<lparr>path = ''/repo/file.ts'', line = 2\<rparr>] initial)) 1
   \<and> signal (processes (shared (run [Lookup \<lparr>path = ''/repo/file.ts'', line = 0\<rparr>,
                         Lookup \<lparr>path = ''/repo/file.ts'', line = 1\<rparr>,
                         Closed 0,
                         Lookup \<lparr>path = ''/repo/file.ts'', line = 2\<rparr>] initial)) ! 1) = None
   \<and> activeBlame (shared (run [Lookup \<lparr>path = ''/repo/file.ts'', line = 0\<rparr>,
                         Lookup \<lparr>path = ''/repo/file.ts'', line = 1\<rparr>,
                         Closed 0] initial)) = None
   \<and> activeBlame (shared (run [Lookup \<lparr>path = ''/repo/file.ts'', line = 0\<rparr>,
                         Lookup \<lparr>path = ''/repo/file.ts'', line = 1\<rparr>,
                         Closed 0,
                         Lookup \<lparr>path = ''/repo/file.ts'', line = 2\<rparr>] initial)) = Some 2"
  by (simp add: run_def initial_def getBlame_start_def getBlame_resume_def startsWith_def
      kill_def runCommand_def running_def update_process_def on_close_def resolve_def Let_def)

section \<open>Claims about the relative time formatter\<close>

lemma floor_rat_divide_numeral:
  "\<lfloor>numeral a / numeral b :: rat\<rfloor> = numeral a div numeral b"
  "\<lfloor>- (numeral a / numeral b) :: rat\<rfloor> = - numeral a div numeral b"
  "\<lfloor>1 / numeral b :: rat\<rfloor> = 1 div numeral b"
  "\<lfloor>- (1 / numeral b) :: rat\<rfloor> = - 1 div numeral b"
proof -
  show "\<lfloor>numeral a / numeral b :: rat\<rfloor> = numeral a div numeral b"
    using floor_divide_of_int_eq [of "numeral a" "numeral b", where ?'a = rat] by simp
  show "\<lfloor>- (numeral a / numeral b) :: rat\<rfloor> = - numeral a div numeral b"
    using floor_divide_of_int_eq [of "- numeral a" "numeral b", where ?'a = rat] by simp
  show "\<lfloor>1 / numeral b :: rat\<rfloor> = 1 div numeral b"
    using floor_divide_of_int_eq [of 1 "numeral b", where ?'a = rat] by simp
  show "\<lfloor>- (1 / numeral b) :: rat\<rfloor> = - 1 div numeral b"
    using floor_divide_of_int_eq [of "- 1" "numeral b", where ?'a = rat] by simp
qed

lemma to_number_weeks:
  "to_number (434524 / 100000) = Fin (1223076327802211 / 281474976710656)"
  by code_simp

lemma to_number_8_7:
  "to_number (- (8 / 7)) = Fin (- (2573485501354569 / 2251799813685248))"
  by code_simp

lemma to_number_3_2: "to_number (- (3 / 2)) = Fin (- (3 / 2))"
  by code_simp

lemma DIVISIONS_eval:
  "DIVISIONS =
     [Division (Fin 60) Seconds, Division (Fin 60) Minutes, Division (Fin 24) Hours,
      Division (Fin 7) Days, Division (Fin (1223076327802211 / 281474976710656)) Weeks,
      Division (Fin 12) Months, Division PosInf Years]"
  unfolding DIVISIONS_def to_number_weeks ..

lemma duration_ago:
  "numeral k < (2::int) ^ 53 \<Longrightarrow>
   js_div (js_sub (Fin (of_int (now - numeral k))) (Fin (of_int now))) (Fin 1000) =
     to_number (- numeral k / 1000)"
  by (simp add: to_number_neg_numeral floor_rat_divide_numeral)

lemma js_div_bounded:
  assumes "\<bar>x\<bar> \<le> 2 ^ 54" and "1 \<le> a"
  shows "\<exists>y. js_div (Fin x) (Fin a) = Fin y \<and> \<bar>y\<bar> \<le> 2 ^ 54"
proof -
  have "\<bar>x / a\<bar> \<le> \<bar>x\<bar> / 1"
    unfolding abs_divide using assms(2) by (intro divide_left_mono) auto
  with assms(1) have "\<bar>x / a\<bar> \<le> 2 ^ 54" by simp
  from to_number_bounded [OF this] assms(2) show ?thesis by simp
qed

lemma walk_returns:
  assumes "\<bar>x\<bar> \<le> 2 ^ 54"
    and "ds \<noteq> []" and "amount (last ds) = PosInf" and "list_all coarser ds"
  shows "\<exists>y u. walk (Fin x) ds = Returned (Fin y) u"
  using assms
proof (induction ds arbitrary: x)
  case Nil
  then show ?case by simp
next
  case (Cons d ds)
  show ?case
  proof (cases "js_less (js_abs (Fin x)) (amount d)")
    case True
    then show ?thesis by simp
  next
    case False
    then obtain a where a: "amount d = Fin a" "1 \<le> a"
      using Cons.prems(4) by (cases "amount d") (auto simp: coarser_def)
    with Cons.prems(3) have ne: "ds \<noteq> []" by auto
    from js_div_bounded [OF Cons.prems(1) a(2)]
    obtain y where y: "js_div (Fin x) (Fin a) = Fin y" "\<bar>y\<bar> \<le> 2 ^ 54" by blast
    have "\<exists>z u. walk (Fin y) ds = Returned (Fin z) u"
      using y(2) ne Cons.prems(3,4) by (intro Cons.IH) auto
    with False a y show ?thesis by simp
  qed
qed

lemma DIVISIONS_coarser:
  "DIVISIONS \<noteq> [] \<and> amount (last DIVISIONS) = PosInf \<and> list_all coarser DIVISIONS"
  by (simp add: DIVISIONS_eval coarser_def)

lemma duration_bounded:
  assumes "\<bar>t\<bar> \<le> 8640000000000000" and "\<bar>now\<bar> \<le> 8640000000000000"
  shows "\<exists>x. js_div (js_sub (Fin (of_int t)) (Fin (of_int now))) (Fin 1000) = Fin x
     \<and> \<bar>x\<bar> \<le> 2 ^ 54"
proof -
  have "\<bar>t - now\<bar> \<le> 2 ^ 54" using assms by simp
  then have "(of_int \<bar>t - now\<bar> :: rat) \<le> of_int (2 ^ 54)" by (simp only: of_int_le_iff)
  then have "\<bar>of_int t - of_int now :: rat\<bar> \<le> 2 ^ 54" by simp
  from to_number_bounded [OF this]
  obtain y where y: "to_number (of_int t - of_int now) = Fin y" "\<bar>y\<bar> \<le> 2 ^ 54" by auto
  from js_div_bounded [OF y(2), of 1000] y(1) show ?thesis by simp
qed

lemma Math_round_nearest:
  "\<exists>n. Math_round (Fin x) = Fin (of_int n) \<and> x - 1 / 2 < of_int n \<and> of_int n \<le> x + 1 / 2"
proof -
  have "x - 1 / 2 < of_int \<lfloor>x + 1 / 2\<rfloor>" "of_int \<lfloor>x + 1 / 2\<rfloor> \<le> x + 1 / 2"
    by linarith+
  then show ?thesis by auto
qed

lemma THRESHOLDS_DIVISIONS: "map amount DIVISIONS = THRESHOLDS"
  by (simp add: DIVISIONS_def THRESHOLDS_def)

lemma UNITS_DIVISIONS: "map unit_name DIVISIONS = UNITS"
  by (simp add: DIVISIONS_def UNITS_def)

lemma walk_Returned:
  "walk d ds = Returned x u \<Longrightarrow>
   \<exists>k < length ds.
      x = foldl js_div d (take k (map amount ds)) \<and> u = unit_name (ds ! k)
      \<and> js_less (js_abs x) (amount (ds ! k))
      \<and> (\<forall>j < k. \<not> js_less (js_abs (foldl js_div d (take j (map amount ds)))) (amount (ds ! j)))"
proof (induction ds arbitrary: d)
  case Nil
  then show ?case by simp
next
  case (Cons a ds)
  show ?case
  proof (cases "js_less (js_abs d) (amount a)")
    case True
    with Cons.prems have "x = d" "u = unit_name a" by simp_all
    with True show ?thesis by (intro exI [of _ 0]) simp
  next
    case False
    with Cons.prems have "walk (js_div d (amount a)) ds = Returned x u" by simp
    from Cons.IH [OF this] obtain k where k: "k < length ds"
      "x = foldl js_div (js_div d (amount a)) (take k (map amount ds))"
      "u = unit_name (ds ! k)" "js_less (js_abs x) (amount (ds ! k))"
      "\<forall>j < k. \<not> js_less (js_abs (foldl js_div (js_div d (amount a))
          (take j (map amount ds)))) (amount (ds ! j))"
      by blast
    have "\<forall>j < Suc k. \<not> js_less (js_abs (foldl js_div d (take j (map amount (a # ds)))))
        (amount ((a # ds) ! j))"
    proof (intro allI impI)
      fix j assume "j < Suc k"
      then show "\<not> js_less (js_abs (foldl js_div d (take j (map amount (a # ds)))))
        (amount ((a # ds) ! j))"
        using False k(5) by (cases j) auto
    qed
    with k(1-4) show ?thesis by (intro exI [of _ "Suc k"]) simp
  qed
qed

lemma walk_stops_at:
  assumes "walk d DIVISIONS = Returned x u"
  shows "\<exists>k. stops_at d k \<and> x = divided d k \<and> u = UNITS ! k"
proof -
  from walk_Returned [OF assms] obtain k where k: "k < length DIVISIONS"
    "x = foldl js_div d (take k (map amount DIVISIONS))" "u = unit_name (DIVISIONS ! k)"
    "js_less (js_abs x) (amount (DIVISIONS ! k))"
    "\<forall>j < k. \<not> js_less (js_abs (foldl js_div d (take j (map amount DIVISIONS))))
        (amount (DIVISIONS ! j))"
    by blast
  have len: "length THRESHOLDS = length DIVISIONS"
    by (simp add: THRESHOLDS_DIVISIONS [symmetric])
  have am: "amount (DIVISIONS ! j) = THRESHOLDS ! j" if "j < length DIVISIONS" for j
    using that by (simp add: THRESHOLDS_DIVISIONS [symmetric])
  have un: "unit_name (DIVISIONS ! k) = UNITS ! k"
    using k(1) by (simp add: UNITS_DIVISIONS [symmetric])
  have x: "x = divided d k"
    using k(2) by (simp add: divided_def THRESHOLDS_DIVISIONS)
  have b: "below_threshold d k"
    using k(4) k(1) x by (simp add: below_threshold_def am)
  have "\<not> below_threshold d j" if "j < k" for j
    using that k(5) k(1) by (simp add: below_threshold_def divided_def THRESHOLDS_DIVISIONS am)
  then have "list_all (\<lambda>j. \<not> below_threshold d j) [0..<k]"
    by (simp add: list_all_iff)
  with b k(1) len x k(3) un show ?thesis
    by (auto simp: stops_at_def)
qed

lemma stops_at_unique: "stops_at d k \<Longrightarrow> stops_at d k' \<Longrightarrow> k = k'"
  by (auto simp: stops_at_def list_all_iff intro: linorder_cases [of k k'])

text \<open>
  Claim C3, as the code has it. For every target and clock reading that a Date can hold
  (at most 8.64e15 milliseconds from the epoch) there is a tier \<open>k\<close> at which the walk
  stops: the first tier whose threshold exceeds the absolute value of the duration in
  seconds divided by the thresholds of the tiers before it. That quotient is a finite
  \<open>x\<close>, not rounded to an integer at any earlier tier, and the phrase is in the unit of
  tier \<open>k\<close> with the one integer \<open>n\<close> such that \<open>x - 1/2 < n \<le> x + 1/2\<close>: the integer nearest
  to \<open>x\<close> and, of two equally near ones, the larger (\<open>Math.round\<close>).
\<close>

theorem formatTimeAgo_rounds_once:
  assumes "\<bar>t\<bar> \<le> 8640000000000000" and "\<bar>now\<bar> \<le> 8640000000000000"
  shows "\<exists>k x n.
      stops_at (seconds_between (Fin (of_int t)) (Fin (of_int now))) k
    \<and> divided (seconds_between (Fin (of_int t)) (Fin (of_int now))) k = Fin x
    \<and> formatTimeAgo (Fin (of_int t)) (Fin (of_int now)) = Inr (Phrase (of_int n) (UNITS ! k))
    \<and> x - 1 / 2 < of_int n \<and> of_int n \<le> x + 1 / 2"
proof -
  let ?d = "seconds_between (Fin (of_int t)) (Fin (of_int now))"
  from duration_bounded [OF assms]
  obtain d where d: "?d = Fin d" "\<bar>d\<bar> \<le> 2 ^ 54"
    unfolding seconds_between_def by blast
  from walk_returns [OF d(2)] DIVISIONS_coarser
  obtain x u where w: "walk (Fin d) DIVISIONS = Returned (Fin x) u" by blast
  from walk_stops_at [OF w]
  obtain k where k: "stops_at (Fin d) k" "Fin x = divided (Fin d) k" "u = UNITS ! k" by blast
  from Math_round_nearest [of x]
  obtain n where n: "Math_round (Fin x) = Fin (of_int n)" "x - 1 / 2 < of_int n"
    "of_int n \<le> x + 1 / 2" by blast
  have "formatTimeAgo (Fin (of_int t)) (Fin (of_int now)) = Inr (Phrase (of_int n) u)"
    unfolding formatTimeAgo_def Let_def d(1) [unfolded seconds_between_def] w using n(1) by simp
  with k n(2,3) show ?thesis unfolding d(1) by (intro exI [of _ k] exI [of _ x] exI [of _ n]) simp
qed

text \<open>The theorem for a target 90 seconds before the clock reading.\<close>

theorem formatTimeAgo_rounds_once_witness:
  "\<exists>k x n.
      stops_at (seconds_between (Fin 0) (Fin 90000)) k
    \<and> divided (seconds_between (Fin 0) (Fin 90000)) k = Fin x
    \<and> formatTimeAgo (Fin 0) (Fin 90000) = Inr (Phrase (of_int n) (UNITS ! k))
    \<and> x - 1 / 2 < of_int n \<and> of_int n \<le> x + 1 / 2"
  using formatTimeAgo_rounds_once [of 0 90000] by simp

text \<open>
  Claim C3 as stated fails: a target 90 seconds in the past is 1.5 minutes in the past,
  \<open>Math.round(-1.5)\<close> is -1, and the phrase denotes 1 minute ago, not 2 minutes ago.
\<close>

theorem formatTimeAgo_90_seconds_ago:
  "formatTimeAgo (Fin 0) (Fin 90000) = Inr (Phrase (- 1) Minutes)
   \<and> formatTimeAgo (Fin 0) (Fin 90000) \<noteq> Inr (Phrase (- 2) Minutes)"
  by (simp add: formatTimeAgo_def DIVISIONS_eval to_number_neg_numeral to_number_3_2
      floor_rat_divide_numeral)

text \<open>
  Claim C6 fails for an invalid Date, whose time value is NaN: the duration is NaN, the
  comparison with every amount is false, also with the infinite one, the loop runs out
  of divisions and the return after it is reached. \<open>Math.round(NaN)\<close> is NaN, which the
  formatter rejects with a RangeError.
\<close>

theorem formatTimeAgo_invalid_date_falls_through:
  "walk (js_div (js_sub NaN now) (Fin 1000)) DIVISIONS = Fell_through NaN
   \<and> formatTimeAgo NaN now = Inl RangeError"
  by (simp add: formatTimeAgo_def DIVISIONS_def)

text \<open>
  Claim C8. For every target and clock reading that a Date can hold, the phrase is in the
  unit of the first tier whose threshold exceeds the absolute value of the duration
  divided by the thresholds before it, and its value is that quotient rounded; the
  thresholds are 60, 60, 24, 7, 4.34524, 12 and infinity, for seconds, minutes, hours,
  days, weeks, months and years, and they are the amounts of \<open>DIVISIONS\<close>. A target 30
  seconds before the clock reading gives 30 seconds ago, one 8 days before it gives 1
  week ago, and one equal to it gives 0 seconds.
\<close>

theorem formatTimeAgo_tiers:
  assumes "\<bar>t\<bar> \<le> 8640000000000000" and "\<bar>now\<bar> \<le> 8640000000000000"
  shows "(\<exists>k. stops_at (seconds_between (Fin (of_int t)) (Fin (of_int now))) k
       \<and> formatTimeAgo (Fin (of_int t)) (Fin (of_int now)) =
           format (Math_round (divided (seconds_between (Fin (of_int t)) (Fin (of_int now))) k))
             (UNITS ! k))
   \<and> map amount DIVISIONS =
     [Fin 60, Fin 60, Fin 24, Fin 7, to_number (434524 / 100000), Fin 12, PosInf]
   \<and> map unit_name DIVISIONS = [Seconds, Minutes, Hours, Days, Weeks, Months, Years]
   \<and> formatTimeAgo (Fin (of_int (now - 30000))) (Fin (of_int now)) =
       Inr (Phrase (- 30) Seconds)
   \<and> formatTimeAgo (Fin (of_int (now - 691200000))) (Fin (of_int now)) =
       Inr (Phrase (- 1) Weeks)
   \<and> formatTimeAgo (Fin (of_int now)) (Fin (of_int now)) = Inr (Phrase 0 Seconds)"
proof -
  let ?d = "seconds_between (Fin (of_int t)) (Fin (of_int now))"
  from duration_bounded [OF assms]
  obtain d where d: "?d = Fin d" "\<bar>d\<bar> \<le> 2 ^ 54"
    unfolding seconds_between_def by blast
  from walk_returns [OF d(2)] DIVISIONS_coarser
  obtain x u where w: "walk (Fin d) DIVISIONS = Returned (Fin x) u" by blast
  from walk_stops_at [OF w]
  obtain k where k: "stops_at (Fin d) k" "Fin x = divided (Fin d) k" "u = UNITS ! k" by blast
  have "formatTimeAgo (Fin (of_int t)) (Fin (of_int now)) =
      format (Math_round (divided (Fin d) k)) (UNITS ! k)"
    unfolding formatTimeAgo_def Let_def d(1) [unfolded seconds_between_def] w
    using k(2,3) by simp
  with k(1) have tier: "\<exists>k. stops_at ?d k
       \<and> formatTimeAgo (Fin (of_int t)) (Fin (of_int now)) =
           format (Math_round (divided ?d k)) (UNITS ! k)"
    unfolding d(1) by blast
  have "map amount DIVISIONS =
      [Fin 60, Fin 60, Fin 24, Fin 7, to_number (434524 / 100000), Fin 12, PosInf]"
    unfolding DIVISIONS_def by simp
  moreover have "map unit_name DIVISIONS = [Seconds, Minutes, Hours, Days, Weeks, Months, Years]"
    by (simp add: DIVISIONS_def)
  moreover have "formatTimeAgo (Fin (of_int (now - 30000))) (Fin (of_int now)) =
      Inr (Phrase (- 30) Seconds)"
    by (simp add: formatTimeAgo_def duration_ago DIVISIONS_eval to_number_neg_numeral
        floor_rat_divide_numeral)
  moreover have "formatTimeAgo (Fin (of_int (now - 691200000))) (Fin (of_int now)) =
      Inr (Phrase (- 1) Weeks)"
    by (simp add: formatTimeAgo_def duration_ago DIVISIONS_eval to_number_neg_numeral
        to_number_8_7 floor_rat_divide_numeral)
  moreover have "formatTimeAgo (Fin (of_int now)) (Fin (of_int now)) = Inr (Phrase 0 Seconds)"
    by (simp add: formatTimeAgo_def DIVISIONS_eval to_number_def floor_rat_divide_numeral)
  ultimately show ?thesis using tier by (simp only: simp_thms)
qed

text \<open>The theorem for a target 8 days before the clock reading.\<close>

theorem formatTimeAgo_tiers_witness:
  "(\<exists>k. stops_at (seconds_between (Fin 0) (Fin 691200000)) k
       \<and> formatTimeAgo (Fin 0) (Fin 691200000) =
           format (Math_round (divided (seconds_between (Fin 0) (Fin 691200000)) k))
             (UNITS ! k))
   \<and> map amount DIVISIONS =
     [Fin 60, Fin 60, Fin 24, Fin 7, to_number (434524 / 100000), Fin 12, PosInf]
   \<and> map unit_name DIVISIONS = [Seconds, Minutes, Hours, Days, Weeks, Months, Years]
   \<and> formatTimeAgo (Fin 691170000) (Fin 691200000) = Inr (Phrase (- 30) Seconds)
   \<and> formatTimeAgo (Fin 0) (Fin 691200000) = Inr (Phrase (- 1) Weeks)
   \<and> formatTimeAgo (Fin 691200000) (Fin 691200000) = Inr (Phrase 0 Seconds)"
  using formatTimeAgo_tiers [of 0 691200000] by auto

end
